theory Spec2Isabelle
  imports Main "HOL-Library.Word"
begin

unbundle bit_operations_syntax

text \<open>
  A shallow embedding of the entity locator of package partition (\<^verbatim>\<open>NewEntityLocator\<close>,
  \<^verbatim>\<open>Find\<close>, \<^verbatim>\<open>Locate\<close>, \<^verbatim>\<open>GetTagByOffset\<close>), of \<^verbatim>\<open>stream.Close\<close>, and of the
  liaison's series-event handler and trace \<^verbatim>\<open>Write\<close> handler. Functions these call in
  other packages enter as parameters, named after them. The definitions come first, the
  properties after them.
\<close>

section \<open>Go values shared by the packages\<close>

text \<open>
  A Go \<^verbatim>\<open>error\<close> value. \<^verbatim>\<open>ErrMalformedElement\<close> is the package variable of
  \<^verbatim>\<open>partition\<close>; \<open>Wrap e msg\<close> is \<^verbatim>\<open>errors.Wrap(e, msg)\<close>; \<open>EOF\<close> is
  \<^verbatim>\<open>io.EOF\<close>; \<open>External msg\<close> stands for an error made by a callee
  defined elsewhere (a marshaller, the schema analyzer, the network stream, a Close).
  A nil error is \<open>None :: error option\<close>.
\<close>

datatype error = ErrMalformedElement | Wrap error string | EOF | External string

text \<open>\<^verbatim>\<open>errors.Is(err, ErrMalformedElement)\<close>: the chain of wrapped causes reaches the
  sentinel.\<close>

fun is_MalformedElement :: "error \<Rightarrow> bool" where
  "is_MalformedElement ErrMalformedElement = True"
| "is_MalformedElement (Wrap e msg) = is_MalformedElement e"
| "is_MalformedElement EOF = False"
| "is_MalformedElement (External msg) = False"

text \<open>
  A call either returns its tuple of results or panics (an index out of range, a nil
  dereference). Go's result tuples are kept as tuples, a nil pointer or nil slice
  result as \<open>None\<close>, so that "returns nil together with the error" is a statement
  about the model and not a consequence of its types.
\<close>

datatype 'a exec = Returns 'a | Panics

type_synonym byte = "8 word"

section \<open>Package partition: the entity locator\<close>

text \<open>\<^verbatim>\<open>type TagLocator struct { FamilyOffset int; TagOffset int }\<close>. The offsets are
  only compared and used as indexes, never computed with, so Go's \<^verbatim>\<open>int\<close> is
  modelled by \<open>int\<close>.\<close>

record TagLocator =
  FamilyOffset :: int
  TagOffset :: int

type_synonym EntityLocator = "TagLocator list"

text \<open>
  \<^verbatim>\<open>modelv1.TagFamilyForWrite\<close> holds a slice of pointers to tag values; the payload
  of a write is a slice of pointers to families. The type of a tag value is a
  parameter \<open>'tv\<close>; a nil pointer is \<open>None\<close>.
\<close>

record 'tv TagFamilyForWrite =
  Tags :: "'tv option list"

type_synonym 'tv payload = "'tv TagFamilyForWrite option list"

text \<open>The generated getter \<^verbatim>\<open>GetTags\<close> is nil-safe: on a nil family it returns a nil
  slice, whose length is 0.\<close>

fun GetTags :: "'tv TagFamilyForWrite option \<Rightarrow> 'tv option list" where
  "GetTags None = []"
| "GetTags (Some family) = Tags family"

text \<open>\<^verbatim>\<open>tsdb.Entry\<close> is a byte slice and \<^verbatim>\<open>tsdb.Entity\<close> a slice of entries.\<close>

type_synonym Entry = "byte list"
type_synonym Entity = "Entry list"

text \<open>
  \<^verbatim>\<open>GetTagByOffset\<close>. The two guards only test the upper bound; an index expression
  with a negative index panics in Go, which the model writes out after each guard.
\<close>

definition GetTagByOffset ::
  "'tv payload \<Rightarrow> int \<Rightarrow> int \<Rightarrow> ('tv option \<times> error option) exec" where
  "GetTagByOffset value fIndex tIndex =
     (if fIndex \<ge> int (length value)
      then Returns (None, Some (Wrap ErrMalformedElement ''tag family offset is invalid''))
      else if fIndex < 0 then Panics
      else
        let family = value ! nat fIndex in
        if tIndex \<ge> int (length (GetTags family))
        then Returns (None, Some (Wrap ErrMalformedElement ''tag offset is invalid''))
        else if tIndex < 0 then Panics
        else Returns (GetTags family ! nat tIndex, None))"

text \<open>
  \<^verbatim>\<open>EntityLocator.Find\<close>. \<open>entity\<close> is the slice made with \<^verbatim>\<open>len(e)\<close> nil entries,
  \<open>i\<close> the index of the range loop. \<open>marshal\<close> is \<^verbatim>\<open>pbv1.MarshalIndexFieldValue\<close>,
  defined in package pbv1: it enters as a parameter giving the entry and the error
  for a tag pointer.
\<close>

fun Find_loop ::
  "('tv option \<Rightarrow> Entry \<times> error option) \<Rightarrow> EntityLocator \<Rightarrow> 'tv payload \<Rightarrow> nat \<Rightarrow> Entity
     \<Rightarrow> (Entity option \<times> error option) exec" where
  "Find_loop marshal [] value i entity = Returns (Some entity, None)"
| "Find_loop marshal (index # rest) value i entity =
     (case GetTagByOffset value (FamilyOffset index) (TagOffset index) of
        Panics \<Rightarrow> Panics
      | Returns (tag, err) \<Rightarrow>
          (case err of
             Some er \<Rightarrow> Returns (None, Some er)
           | None \<Rightarrow>
               (case marshal tag of
                  (entry, errMarshal) \<Rightarrow>
                    (case errMarshal of
                       Some er \<Rightarrow> Returns (None, Some er)
                     | None \<Rightarrow> Find_loop marshal rest value (Suc i) (entity[i := entry])))))"

definition Find ::
  "('tv option \<Rightarrow> Entry \<times> error option) \<Rightarrow> EntityLocator \<Rightarrow> 'tv payload
     \<Rightarrow> (Entity option \<times> error option) exec" where
  "Find marshal e value = Find_loop marshal e value 0 (replicate (length e) [])"

text \<open>Modelled from the spec: \<^verbatim>\<open>tsdb.Entity.Marshal\<close>, whose body is in package
  tsdb. The spec hashes \<open>concat(entityBytes)\<close>: the entries joined in order. A nil
  entity has no entries.\<close>

fun Marshal_Entity :: "Entity option \<Rightarrow> byte list" where
  "Marshal_Entity None = []"
| "Marshal_Entity (Some entity) = concat entity"

text \<open>
  \<^verbatim>\<open>EntityLocator.Locate\<close>. \<open>shardID\<close> is the function \<^verbatim>\<open>ShardID\<close> of the package,
  defined in another file of it: a parameter returning \<^verbatim>\<open>(uint, error)\<close> or panicking.
  \<^verbatim>\<open>uint\<close> is taken 64 bits wide, \<^verbatim>\<open>shardNum\<close> is a \<^verbatim>\<open>uint32\<close>, and
  \<^verbatim>\<open>common.ShardID(id)\<close> converts the \<^verbatim>\<open>uint\<close> to the 32-bit shard id.
\<close>

definition Locate ::
  "('tv option \<Rightarrow> Entry \<times> error option) \<Rightarrow> (byte list \<Rightarrow> 32 word \<Rightarrow> (64 word \<times> error option) exec)
     \<Rightarrow> EntityLocator \<Rightarrow> 'tv payload \<Rightarrow> 32 word
     \<Rightarrow> (Entity option \<times> 32 word \<times> error option) exec" where
  "Locate marshal shardID e value shardNum =
     (case Find marshal e value of
        Panics \<Rightarrow> Panics
      | Returns (entity, err) \<Rightarrow>
          (case err of
             Some er \<Rightarrow> Returns (None, 0, Some er)
           | None \<Rightarrow>
               (case shardID (Marshal_Entity entity) shardNum of
                  Panics \<Rightarrow> Panics
                | Returns (id', err2) \<Rightarrow>
                    (case err2 of
                       Some er \<Rightarrow> Returns (None, 0, Some er)
                     | None \<Rightarrow> Returns (entity, ucast id', None)))))"

text \<open>Modelled from the spec: the function \<^verbatim>\<open>ShardID\<close> of package partition, whose
  body is in another file of the package. The spec computes
  \<open>shardID = hash(concat(entityBytes)) mod shardNum\<close> with a 64-bit hash, taken here
  as the parameter \<open>hash\<close>, and gives the result for \<open>shardNum \<ge> 1\<close> only. With
  \<open>shardNum = 0\<close> the remainder does not exist (Go's \<^verbatim>\<open>%\<close> panics on a zero
  divisor), and the model panics.\<close>

definition ShardID ::
  "(byte list \<Rightarrow> 64 word) \<Rightarrow> byte list \<Rightarrow> 32 word \<Rightarrow> (64 word \<times> error option) exec" where
  "ShardID hash key shardNum =
     (if shardNum = 0 then Panics else Returns (hash key mod ucast shardNum, None))"

text \<open>
  \<^verbatim>\<open>NewEntityLocator\<close>. \<^verbatim>\<open>pbv1.FindTagByName\<close> is defined in package pbv1 and is
  the parameter \<open>findTagByName\<close>, returning the two indexes and a pointer to the tag
  specification (nil when the name is unknown). \<open>tagNames\<close> is
  \<^verbatim>\<open>entity.GetTagNames()\<close>; the loop appends to \<open>locator\<close>.
\<close>

fun NewEntityLocator_loop ::
  "('fams \<Rightarrow> string \<Rightarrow> int \<times> int \<times> 'spec option) \<Rightarrow> 'fams \<Rightarrow> string list \<Rightarrow> EntityLocator
     \<Rightarrow> EntityLocator" where
  "NewEntityLocator_loop findTagByName families [] locator = locator"
| "NewEntityLocator_loop findTagByName families (tagInEntity # rest) locator =
     (case findTagByName families tagInEntity of
        (fIndex, tIndex, tag) \<Rightarrow>
          (case tag of
             Some spec \<Rightarrow>
               NewEntityLocator_loop findTagByName families rest
                 (locator @ [\<lparr>FamilyOffset = fIndex, TagOffset = tIndex\<rparr>])
           | None \<Rightarrow> NewEntityLocator_loop findTagByName families rest locator))"

text \<open>\<^verbatim>\<open>databasev1.Entity\<close> carries the declared tag names; the getter
  \<^verbatim>\<open>GetTagNames\<close> is nil-safe.\<close>

record EntityDecl =
  TagNames :: "string list"

fun GetTagNames :: "EntityDecl option \<Rightarrow> string list" where
  "GetTagNames None = []"
| "GetTagNames (Some entity) = TagNames entity"

definition NewEntityLocator ::
  "('fams \<Rightarrow> string \<Rightarrow> int \<times> int \<times> 'spec option) \<Rightarrow> 'fams \<Rightarrow> EntityDecl option \<Rightarrow> EntityLocator" where
  "NewEntityLocator findTagByName families entity =
     NewEntityLocator_loop findTagByName families (GetTagNames entity) []"

section \<open>Package stream: closing a stream\<close>


text \<open>
  The state \<^verbatim>\<open>stream.Close\<close> acts on: the shards of the database and the index writer
  attached to the stream.
\<close>

record ('shard, 'iw) resources =
  shards :: "'shard list"
  indexWriter :: 'iw




section \<open>Package grpc: the liaison server\<close>

text \<open>
  The flatbuffers table \<^verbatim>\<open>v1.SeriesEvent\<close> as far as the server reads it: the action,
  the name and group of the series, and the vector of field names that compose the
  series id.
\<close>

record SeriesEvent =
  Action :: string
  SeriesName :: string
  SeriesGroup :: string
  FieldNamesCompositeSeriesId :: "string list"

text \<open>The package-level variables of the liaison: \<^verbatim>\<open>var seriesEventData *v1.SeriesEvent\<close>,
  nil when the process starts.\<close>

record globals =
  seriesEventData :: "SeriesEvent option"

definition initial_globals :: globals where
  "initial_globals = \<lparr>seriesEventData = None\<rparr>"

text \<open>\<^verbatim>\<open>message.Data()\<close> is an empty interface: a byte slice (here a buffer of type
  \<open>'buf\<close>) or a value of another type.\<close>

datatype 'buf message_data = Bytes 'buf | Other

text \<open>
  \<^verbatim>\<open>seriesInfo.Rev\<close>. \<open>getRootAsSeriesEvent\<close> is the generated
  \<^verbatim>\<open>v1.GetRootAsSeriesEvent(data, 0)\<close>, a parameter. The handler returns no response;
  its effect is the assignment to the package variable (the log lines are left out).
\<close>

definition seriesInfo_Rev ::
  "('buf \<Rightarrow> SeriesEvent) \<Rightarrow> globals \<Rightarrow> 'buf message_data \<Rightarrow> globals" where
  "seriesInfo_Rev getRootAsSeriesEvent g message =
     (case message of
        Other \<Rightarrow> g
      | Bytes data \<Rightarrow> g\<lparr>seriesEventData := Some (getRootAsSeriesEvent data)\<rparr>)"

text \<open>
  A write request as \<^verbatim>\<open>TraceServer.Write\<close> reads it: its metadata, and for a
  subscript the result \<open>ok\<close> of the generated accessor
  \<^verbatim>\<open>writeEntity.Entity(nil).Fields(&field, sub)\<close>.
\<close>

record 'md WriteEntity =
  MetaData :: 'md
  EntityFields :: "int \<Rightarrow> bool"

text \<open>What \<^verbatim>\<open>TraceWriteServer.Recv()\<close> returns: a request, or an error (\<open>EOF\<close> when the
  client has closed the stream). A stream is the list of these results in order; after
  the last one \<^verbatim>\<open>Recv\<close> returns \<^verbatim>\<open>io.EOF\<close>.\<close>

datatype 'md recv = Msg "'md WriteEntity" | RecvErr error

text \<open>
  The loop over the field names of \<^verbatim>\<open>seriesEventData\<close> inside \<^verbatim>\<open>Write\<close>. The schema is
  given by its method \<^verbatim>\<open>FieldSubscript\<close>, from a name to \<open>(defined, sub)\<close>. The result
  is \<open>False\<close> when the loop leaves the handler by \<^verbatim>\<open>return nil\<close>.
\<close>

fun Write_fields :: "(string \<Rightarrow> bool \<times> int) \<Rightarrow> 'md WriteEntity \<Rightarrow> string list \<Rightarrow> bool" where
  "Write_fields schema writeEntity [] = True"
| "Write_fields schema writeEntity (id' # ids) =
     (case schema id' of
        (defined, sub) \<Rightarrow>
          if defined \<and> \<not> EntityFields writeEntity sub then False
          else Write_fields schema writeEntity ids)"

text \<open>
  \<^verbatim>\<open>TraceServer.Write\<close>. \<open>buildTraceSchema\<close> is \<^verbatim>\<open>ana.BuildTraceSchema\<close> of package
  logical, a parameter from the metadata to the schema and an error. \<open>send k\<close> is the
  error of the \<open>k\<close>-th call of \<^verbatim>\<open>TraceWriteServer.Send\<close>, counted from 0; \<open>sent\<close>
  counts the responses sent so far (every response is the empty
  \<^verbatim>\<open>WriteResponse\<close>). The result is the number of \<^verbatim>\<open>Send\<close> calls made and how the
  handler ended. Calling \<^verbatim>\<open>FieldNamesCompositeSeriesIdLength\<close> on the nil
  \<^verbatim>\<open>seriesEventData\<close> dereferences a nil pointer: the handler panics.
\<close>

fun Write_loop ::
  "('md \<Rightarrow> (string \<Rightarrow> bool \<times> int) \<times> error option) \<Rightarrow> (nat \<Rightarrow> error option) \<Rightarrow> globals
     \<Rightarrow> 'md recv list \<Rightarrow> nat \<Rightarrow> nat \<times> error option exec" where
  "Write_loop buildTraceSchema send g [] sent = (sent, Returns None)"
| "Write_loop buildTraceSchema send g (RecvErr err # stream) sent =
     (if err = EOF then (sent, Returns None) else (sent, Returns (Some err)))"
| "Write_loop buildTraceSchema send g (Msg writeEntity # stream) sent =
     (case buildTraceSchema (MetaData writeEntity) of
        (schema, ruleError) \<Rightarrow>
          (case ruleError of
             Some er \<Rightarrow> (sent, Returns (Some er))
           | None \<Rightarrow>
               (case seriesEventData g of
                  None \<Rightarrow> (sent, Panics)
                | Some event \<Rightarrow>
                    if \<not> Write_fields schema writeEntity (FieldNamesCompositeSeriesId event)
                    then (sent, Returns None)
                    else
                      (case send sent of
                         Some errSend \<Rightarrow> (Suc sent, Returns (Some errSend))
                       | None \<Rightarrow> Write_loop buildTraceSchema send g stream (Suc sent)))))"

definition Write ::
  "('md \<Rightarrow> (string \<Rightarrow> bool \<times> int) \<times> error option) \<Rightarrow> (nat \<Rightarrow> error option) \<Rightarrow> globals
     \<Rightarrow> 'md recv list \<Rightarrow> nat \<times> error option exec" where
  "Write buildTraceSchema send g stream = Write_loop buildTraceSchema send g stream 0"

section \<open>Instances of the parameters, for concrete runs\<close>

text \<open>Modelled from the spec: \<^verbatim>\<open>pbv1.MarshalIndexFieldValue\<close> on string tags, whose
  body is in package pbv1. The spec: "strings encoded as UTF-8 bytes". A tag value is
  a string here, a character is its byte; a nil tag has no value to marshal and gives
  an error.\<close>

definition marshal_str :: "string option \<Rightarrow> Entry \<times> error option" where
  "marshal_str tag =
     (case tag of
        None \<Rightarrow> ([], Some (External ''unsupported tag value''))
      | Some s \<Rightarrow> (map (\<lambda>c. of_nat (of_char c)) s, None))"

text \<open>Modelled from the spec: the hash of \<^verbatim>\<open>ShardID\<close>, whose body is in package
  convert. The spec asks for "a fast, well-distributed non-cryptographic hash (e.g.,
  64-bit FNV-style)"; this is FNV-1a on 64 bits.\<close>

definition fnv1a :: "byte list \<Rightarrow> 64 word" where
  "fnv1a key = fold (\<lambda>b h. (h XOR ucast b) * 0x100000001B3) key 0xCBF29CE484222325"

section \<open>Properties of GetTagByOffset\<close>

lemma GetTagByOffset_in_range:
  assumes "0 \<le> fIndex" and "0 \<le> tIndex"
    and "fIndex < int (length value)"
    and "tIndex < int (length (GetTags (value ! nat fIndex)))"
  shows "GetTagByOffset value fIndex tIndex
           = Returns (GetTags (value ! nat fIndex) ! nat tIndex, None)"
  using assms by (simp add: GetTagByOffset_def Let_def)

lemma GetTagByOffset_family_out:
  assumes "int (length value) \<le> fIndex"
  shows "GetTagByOffset value fIndex tIndex
           = Returns (None, Some (Wrap ErrMalformedElement ''tag family offset is invalid''))"
  using assms by (simp add: GetTagByOffset_def)

lemma GetTagByOffset_tag_out:
  assumes "0 \<le> fIndex" and "fIndex < int (length value)"
    and "int (length (GetTags (value ! nat fIndex))) \<le> tIndex"
  shows "GetTagByOffset value fIndex tIndex
           = Returns (None, Some (Wrap ErrMalformedElement ''tag offset is invalid''))"
  using assms by (simp add: GetTagByOffset_def Let_def)

lemma GetTagByOffset_nonneg_cases:
  assumes "0 \<le> fIndex" and "0 \<le> tIndex"
  shows "(\<exists>tag. GetTagByOffset value fIndex tIndex = Returns (tag, None)
            \<and> fIndex < int (length value)
            \<and> tIndex < int (length (GetTags (value ! nat fIndex))))
       \<or> (\<exists>err. GetTagByOffset value fIndex tIndex = Returns (None, Some err)
            \<and> is_MalformedElement err
            \<and> \<not> (fIndex < int (length value)
                  \<and> tIndex < int (length (GetTags (value ! nat fIndex)))))"
  using assms by (auto simp add: GetTagByOffset_def Let_def)

text \<open>
  Claim C10. With offsets that are not negative, \<^verbatim>\<open>GetTagByOffset\<close> never panics: when
  the family offset is below the number of families and the tag offset below the
  number of tags of that family, it returns the tag at that position with a nil
  error; otherwise it returns a nil tag and an error that is \<^verbatim>\<open>ErrMalformedElement\<close>.
\<close>

theorem GetTagByOffset_guarded:
  assumes "0 \<le> fIndex" and "0 \<le> tIndex"
  shows "(fIndex < int (length value) \<and> tIndex < int (length (GetTags (value ! nat fIndex)))
            \<longrightarrow> GetTagByOffset value fIndex tIndex
                  = Returns (GetTags (value ! nat fIndex) ! nat tIndex, None))
       \<and> (\<not> (fIndex < int (length value) \<and> tIndex < int (length (GetTags (value ! nat fIndex))))
            \<longrightarrow> (\<exists>err. GetTagByOffset value fIndex tIndex = Returns (None, Some err)
                   \<and> is_MalformedElement err))
       \<and> GetTagByOffset value fIndex tIndex \<noteq> Panics"
proof (intro conjI impI)
  assume "fIndex < int (length value) \<and> tIndex < int (length (GetTags (value ! nat fIndex)))"
  with assms show "GetTagByOffset value fIndex tIndex
                  = Returns (GetTags (value ! nat fIndex) ! nat tIndex, None)"
    by (simp add: GetTagByOffset_in_range)
next
  assume out: "\<not> (fIndex < int (length value) \<and> tIndex < int (length (GetTags (value ! nat fIndex))))"
  show "\<exists>err. GetTagByOffset value fIndex tIndex = Returns (None, Some err) \<and> is_MalformedElement err"
  proof (cases "fIndex < int (length value)")
    case False
    then show ?thesis by (simp add: GetTagByOffset_family_out)
  next
    case True
    with out have "int (length (GetTags (value ! nat fIndex))) \<le> tIndex" by simp
    with True assms show ?thesis by (simp add: GetTagByOffset_tag_out)
  qed
next
  from GetTagByOffset_nonneg_cases [OF assms, of "value"]
  show "GetTagByOffset value fIndex tIndex \<noteq> Panics" by auto
qed

theorem GetTagByOffset_guarded_witness:
  "GetTagByOffset [Some \<lparr>Tags = [Some ''svcA'', Some '''', Some ''i-1'']\<rparr>] 0 2
     = Returns (Some ''i-1'', None)
   \<and> (\<exists>err. GetTagByOffset [Some \<lparr>Tags = [Some ''svcA'', Some '''', Some ''i-1'']\<rparr>] 1 0
          = Returns (None, Some err) \<and> is_MalformedElement err)
   \<and> (\<exists>err. GetTagByOffset [Some \<lparr>Tags = [Some ''svcA'', Some '''', Some ''i-1'']\<rparr>] 0 3
          = Returns (None, Some err) \<and> is_MalformedElement err)
   \<and> (\<exists>err. GetTagByOffset [None :: string TagFamilyForWrite option] 0 0
          = Returns (None, Some err) \<and> is_MalformedElement err)
   \<and> GetTagByOffset [Some \<lparr>Tags = [Some ''svcA'', Some '''', Some ''i-1'']\<rparr>] 0 2 \<noteq> Panics"
  using GetTagByOffset_guarded [of 0 2 "[Some \<lparr>Tags = [Some ''svcA'', Some '''', Some ''i-1'']\<rparr>]"]
        GetTagByOffset_guarded [of 1 0 "[Some \<lparr>Tags = [Some ''svcA'', Some '''', Some ''i-1'']\<rparr>]"]
        GetTagByOffset_guarded [of 0 3 "[Some \<lparr>Tags = [Some ''svcA'', Some '''', Some ''i-1'']\<rparr>]"]
        GetTagByOffset_guarded [of 0 0 "[None :: string TagFamilyForWrite option]"]
  by simp

section \<open>Properties of Find and Locate\<close>

lemma Find_loop_error_nil:
  "Find_loop marshal e value i entity = Returns (ent, Some err) \<Longrightarrow> ent = None"
proof (induction e arbitrary: i entity)
  case Nil
  then show ?case by simp
next
  case (Cons index rest)
  then show ?case
    by (auto split: exec.splits option.splits prod.splits)
qed

lemma Find_loop_ok_Some:
  "Find_loop marshal e value i entity = Returns (ent, None) \<Longrightarrow> ent \<noteq> None"
proof (induction e arbitrary: i entity)
  case Nil
  then show ?case by auto
next
  case (Cons index rest)
  then show ?case
    by (auto split: exec.splits option.splits prod.splits)
qed

lemma Find_ok_Some:
  "Find marshal e value = Returns (ent, None) \<Longrightarrow> ent \<noteq> None"
  unfolding Find_def by (rule Find_loop_ok_Some)

lemma Locate_Find_error:
  "Find marshal e value = Returns (ent, Some err)
     \<Longrightarrow> Locate marshal shardID e value shardNum = Returns (None, 0, Some err)"
  by (simp add: Locate_def)

lemma Locate_error_nil:
  "Locate marshal shardID e value shardNum = Returns (ent, sid, Some err)
     \<Longrightarrow> ent = None \<and> sid = 0"
  by (auto simp add: Locate_def split: exec.splits option.splits prod.splits)

text \<open>
  Claim C9. When \<^verbatim>\<open>Find\<close> returns an error, the entity it returns with it is nil, and
  \<^verbatim>\<open>Locate\<close> returns that same error with a nil entity and shard id 0. Whenever
  \<^verbatim>\<open>Locate\<close> returns an error (from \<^verbatim>\<open>Find\<close> or from \<^verbatim>\<open>ShardID\<close>), its entity is
  nil and its shard id is 0. This holds for every marshaller and every \<^verbatim>\<open>ShardID\<close>.
\<close>

theorem Locate_propagates_Find_error:
  "(Find marshal e value = Returns (entity, Some err)
      \<longrightarrow> entity = None
          \<and> Locate marshal shardID e value shardNum = Returns (None, 0, Some err))
   \<and> (Locate marshal shardID e value shardNum = Returns (entity', sid, Some err')
      \<longrightarrow> entity' = None \<and> sid = 0)"
proof (intro conjI impI)
  assume f: "Find marshal e value = Returns (entity, Some err)"
  then show "entity = None"
    unfolding Find_def by (rule Find_loop_error_nil)
  from f show "Locate marshal shardID e value shardNum = Returns (None, 0, Some err)"
    by (rule Locate_Find_error)
next
  assume "Locate marshal shardID e value shardNum = Returns (entity', sid, Some err')"
  then show "entity' = None" and "sid = 0"
    by (simp_all add: Locate_error_nil)
qed

theorem Locate_propagates_Find_error_witness:
  "Find marshal_str [\<lparr>FamilyOffset = 1, TagOffset = 0\<rparr>] [Some \<lparr>Tags = [Some ''svcA'']\<rparr>]
     = Returns (None, Some (Wrap ErrMalformedElement ''tag family offset is invalid''))
   \<and> Locate marshal_str (ShardID fnv1a) [\<lparr>FamilyOffset = 1, TagOffset = 0\<rparr>]
        [Some \<lparr>Tags = [Some ''svcA'']\<rparr>] 4
     = Returns (None, 0, Some (Wrap ErrMalformedElement ''tag family offset is invalid''))"
proof -
  have failed: "Find marshal_str [\<lparr>FamilyOffset = 1, TagOffset = 0\<rparr>] [Some \<lparr>Tags = [Some ''svcA'']\<rparr>]
     = Returns (None, Some (Wrap ErrMalformedElement ''tag family offset is invalid''))"
    by (simp add: Find_def GetTagByOffset_def)
  from Locate_propagates_Find_error [of marshal_str "[\<lparr>FamilyOffset = 1, TagOffset = 0\<rparr>]"
      "[Some \<lparr>Tags = [Some ''svcA'']\<rparr>]" None "Wrap ErrMalformedElement ''tag family offset is invalid''"
      "ShardID fnv1a" 4] failed
  show ?thesis by simp
qed

lemma Find_loop_rejected:
  assumes "k < length e"
    and "int (length value) \<le> FamilyOffset (e ! k)
         \<or> (0 \<le> FamilyOffset (e ! k)
            \<and> int (length (GetTags (value ! nat (FamilyOffset (e ! k))))) \<le> TagOffset (e ! k))"
    and "\<forall>j<k. \<exists>tag entry. GetTagByOffset value (FamilyOffset (e ! j)) (TagOffset (e ! j))
                              = Returns (tag, None)
                          \<and> marshal tag = (entry, None)"
  shows "\<exists>err. Find_loop marshal e value i entity = Returns (None, Some err)
           \<and> is_MalformedElement err"
  using assms
proof (induction e arbitrary: k i entity)
  case Nil
  then show ?case by simp
next
  case (Cons index rest)
  show ?case
  proof (cases k)
    case 0
    with Cons.prems(2)
    have "int (length value) \<le> FamilyOffset index
         \<or> (0 \<le> FamilyOffset index
            \<and> int (length (GetTags (value ! nat (FamilyOffset index)))) \<le> TagOffset index)"
      by simp
    then have "\<exists>err. GetTagByOffset value (FamilyOffset index) (TagOffset index)
                     = Returns (None, Some err) \<and> is_MalformedElement err"
      by (auto simp add: GetTagByOffset_def Let_def)
    then show ?thesis by auto
  next
    case (Suc k')
    from Cons.prems(3) Suc
    obtain tag entry where here:
      "GetTagByOffset value (FamilyOffset index) (TagOffset index) = Returns (tag, None)"
      "marshal tag = (entry, None)"
      by fastforce
    from Cons.prems(1) Suc have k': "k' < length rest" by simp
    from Cons.prems(2) Suc
    have rej: "int (length value) \<le> FamilyOffset (rest ! k')
         \<or> (0 \<le> FamilyOffset (rest ! k')
            \<and> int (length (GetTags (value ! nat (FamilyOffset (rest ! k'))))) \<le> TagOffset (rest ! k'))"
      by simp
    have before: "\<forall>j<k'. \<exists>tag entry. GetTagByOffset value (FamilyOffset (rest ! j)) (TagOffset (rest ! j))
                              = Returns (tag, None)
                          \<and> marshal tag = (entry, None)"
    proof (intro allI impI)
      fix j assume "j < k'"
      then have "Suc j < k" using Suc by simp
      with Cons.prems(3) show "\<exists>tag entry. GetTagByOffset value (FamilyOffset (rest ! j)) (TagOffset (rest ! j))
                              = Returns (tag, None) \<and> marshal tag = (entry, None)"
        by fastforce
    qed
    from Cons.IH [OF k' rej before, of "Suc i" "entity[i := entry]"] here
    show ?thesis by simp
  qed
qed

text \<open>
  Claim C4, as the code has it. Let the pair at position \<open>k\<close> of the locator be one
  that the guards of \<^verbatim>\<open>GetTagByOffset\<close> reject: its family offset is at or above the
  number of families of the payload, or its family offset is within the payload and its
  tag offset is at or above the number of tags of that family. Let every pair before it
  locate a tag that marshals without error. Then \<^verbatim>\<open>Find\<close> returns a nil entity and an
  error that is \<^verbatim>\<open>ErrMalformedElement\<close>. Nothing is asked of the pairs after position
  \<open>k\<close>, nor of the tag offset of a pair whose family offset is too large.
\<close>

theorem Find_out_of_range_MalformedElement:
  assumes "k < length e"
    and "int (length value) \<le> FamilyOffset (e ! k)
         \<or> (0 \<le> FamilyOffset (e ! k)
            \<and> int (length (GetTags (value ! nat (FamilyOffset (e ! k))))) \<le> TagOffset (e ! k))"
    and "\<forall>j<k. \<exists>tag entry. GetTagByOffset value (FamilyOffset (e ! j)) (TagOffset (e ! j))
                              = Returns (tag, None)
                          \<and> marshal tag = (entry, None)"
  shows "\<exists>err. Find marshal e value = Returns (None, Some err) \<and> is_MalformedElement err"
proof -
  from assms
  have "\<exists>err. Find_loop marshal e value 0 (replicate (length e) []) = Returns (None, Some err)
           \<and> is_MalformedElement err"
    by (rule Find_loop_rejected)
  then show ?thesis
    by (simp add: Find_def)
qed

theorem Find_out_of_range_MalformedElement_witness:
  "(\<exists>err. Find marshal_str [\<lparr>FamilyOffset = 0, TagOffset = 0\<rparr>, \<lparr>FamilyOffset = 1, TagOffset = 0\<rparr>]
            [Some \<lparr>Tags = [Some ''svcA'']\<rparr>] = Returns (None, Some err)
         \<and> is_MalformedElement err)
   \<and> (\<exists>err. Find marshal_str [\<lparr>FamilyOffset = 5, TagOffset = - 1\<rparr>]
            [Some \<lparr>Tags = [Some ''svcA'']\<rparr>] = Returns (None, Some err)
         \<and> is_MalformedElement err)
   \<and> (\<exists>err. Find marshal_str [\<lparr>FamilyOffset = 1, TagOffset = 0\<rparr>, \<lparr>FamilyOffset = - 1, TagOffset = 0\<rparr>]
            [Some \<lparr>Tags = [Some ''svcA'']\<rparr>] = Returns (None, Some err)
         \<and> is_MalformedElement err)"
proof -
  let ?v = "[Some \<lparr>Tags = [Some ''svcA'']\<rparr>]"
  let ?e = "[\<lparr>FamilyOffset = 0, TagOffset = 0\<rparr>, \<lparr>FamilyOffset = 1, TagOffset = 0\<rparr>]"
  have k: "(1::nat) < length ?e" by simp
  have out: "int (length ?v) \<le> FamilyOffset (?e ! 1)
         \<or> (0 \<le> FamilyOffset (?e ! 1)
            \<and> int (length (GetTags (?v ! nat (FamilyOffset (?e ! 1))))) \<le> TagOffset (?e ! 1))"
    by simp
  have before: "\<forall>j<1. \<exists>tag entry. GetTagByOffset ?v (FamilyOffset (?e ! j)) (TagOffset (?e ! j))
                              = Returns (tag, None)
                          \<and> marshal_str tag = (entry, None)"
    by (simp add: GetTagByOffset_def marshal_str_def)
  note first = Find_out_of_range_MalformedElement [OF k out before]
  have second: "\<exists>err. Find marshal_str [\<lparr>FamilyOffset = 5, TagOffset = - 1\<rparr>] ?v
                   = Returns (None, Some err) \<and> is_MalformedElement err"
    by (rule Find_out_of_range_MalformedElement [of 0]) simp_all
  have third: "\<exists>err. Find marshal_str [\<lparr>FamilyOffset = 1, TagOffset = 0\<rparr>, \<lparr>FamilyOffset = - 1, TagOffset = 0\<rparr>] ?v
                   = Returns (None, Some err) \<and> is_MalformedElement err"
    by (rule Find_out_of_range_MalformedElement [of 0]) simp_all
  from first second third show ?thesis by blast
qed

text \<open>
  Claim C4 as stated fails in two ways, both before the loop of \<^verbatim>\<open>Find\<close> reaches a
  pair that the guards reject. The guards test the upper bound only, so a negative
  offset makes the index expression panic: alone, or in a pair that precedes one with a
  family offset too large. And the loop returns the first error it meets: when the tag
  of an earlier pair does not marshal (here a nil tag pointer, with the marshaller of
  strings), \<^verbatim>\<open>Find\<close> returns the marshaller's error, which is not
  \<^verbatim>\<open>ErrMalformedElement\<close>, although the next pair has a family offset too large.
\<close>

theorem Find_out_of_range_other_outcomes:
  "Find marshal_str [\<lparr>FamilyOffset = - 1, TagOffset = 0\<rparr>] [] = Panics
   \<and> Find marshal_str [\<lparr>FamilyOffset = 0, TagOffset = - 1\<rparr>, \<lparr>FamilyOffset = 1, TagOffset = 0\<rparr>]
        [Some \<lparr>Tags = [Some ''svcA'']\<rparr>] = Panics
   \<and> Find marshal_str [\<lparr>FamilyOffset = 0, TagOffset = 0\<rparr>, \<lparr>FamilyOffset = 1, TagOffset = 0\<rparr>]
        [Some \<lparr>Tags = [None]\<rparr>] = Returns (None, Some (External ''unsupported tag value''))
   \<and> \<not> is_MalformedElement (External ''unsupported tag value'')"
  by (simp add: Find_def GetTagByOffset_def marshal_str_def)

lemma unat_ucast_32_64: "unat (ucast (n :: 32 word) :: 64 word) = unat n"
proof -
  have "unat n < 2 ^ 32" using unsigned_less [of n, where 'a = nat] by simp
  then have "unat n < 2 ^ 64" by (rule less_trans) simp
  then show ?thesis by (simp add: unsigned_ucast_eq take_bit_nat_eq_self)
qed

lemma unat_mod_shard:
  fixes h :: "64 word" and n :: "32 word"
  assumes "n \<noteq> 0"
  shows "unat (ucast (h mod ucast n) :: 32 word) = unat h mod unat n"
    and "unat h mod unat n < unat n"
proof -
  from assms have pos: "0 < unat n" by (simp add: unat_gt_0)
  then show lt: "unat h mod unat n < unat n" by simp
  have "unat n < 2 ^ 32" using unsigned_less [of n, where 'a = nat] by simp
  with lt have small: "unat h mod unat n < 2 ^ 32" by (rule less_trans)
  have "unat (h mod ucast n) = unat h mod unat n"
    by (simp add: unat_mod_distrib unat_ucast_32_64)
  with small show "unat (ucast (h mod ucast n) :: 32 word) = unat h mod unat n"
    by (simp add: unsigned_ucast_eq take_bit_nat_eq_self)
qed

text \<open>
  Claim C1. When \<^verbatim>\<open>Find\<close> succeeds on the payload and \<open>shardNum \<ge> 1\<close>, \<^verbatim>\<open>Locate\<close>
  returns the entity of \<^verbatim>\<open>Find\<close>, a nil error, and the shard id
  \<open>hash(concat(entity)) mod shardNum\<close>, which is below \<open>shardNum\<close>. \<^verbatim>\<open>ShardID\<close> is the
  one modelled from the spec, for every 64-bit hash; the conversions between the
  32-bit shard number, the 64-bit hash and the 32-bit shard id lose nothing.
\<close>

theorem Locate_shard_id:
  assumes "Find marshal e value = Returns (ent, None)" and "1 \<le> unat shardNum"
  shows "\<exists>entity sid. ent = Some entity
           \<and> Locate marshal (ShardID hash) e value shardNum = Returns (Some entity, sid, None)
           \<and> unat sid = unat (hash (concat entity)) mod unat shardNum
           \<and> unat sid < unat shardNum"
proof -
  from assms(1) obtain entity where ent: "ent = Some entity"
    using Find_ok_Some by blast
  from assms(2) have nz: "shardNum \<noteq> 0" by auto
  let ?sid = "ucast (hash (concat entity) mod ucast shardNum) :: 32 word"
  have "Locate marshal (ShardID hash) e value shardNum = Returns (Some entity, ?sid, None)"
    using assms(1) ent nz by (simp add: Locate_def ShardID_def)
  moreover have "unat ?sid = unat (hash (concat entity)) mod unat shardNum"
    using nz by (rule unat_mod_shard(1))
  moreover have "unat ?sid < unat shardNum"
    using nz by (simp add: unat_mod_shard)
  ultimately show ?thesis using ent by blast
qed

theorem Locate_shard_id_witness:
  "Find marshal_str [\<lparr>FamilyOffset = 0, TagOffset = 0\<rparr>, \<lparr>FamilyOffset = 0, TagOffset = 2\<rparr>]
        [Some \<lparr>Tags = [Some ''svcA'', Some '''', Some ''i-1'']\<rparr>]
     = Returns (Some [[115, 118, 99, 65], [105, 45, 49]], None)
   \<and> 1 \<le> unat (4 :: 32 word)
   \<and> (\<exists>sid. Locate marshal_str (ShardID fnv1a)
               [\<lparr>FamilyOffset = 0, TagOffset = 0\<rparr>, \<lparr>FamilyOffset = 0, TagOffset = 2\<rparr>]
               [Some \<lparr>Tags = [Some ''svcA'', Some '''', Some ''i-1'']\<rparr>] 4
             = Returns (Some [[115, 118, 99, 65], [105, 45, 49]], sid, None)
           \<and> unat sid = unat (fnv1a [115, 118, 99, 65, 105, 45, 49]) mod unat (4 :: 32 word)
           \<and> unat sid < unat (4 :: 32 word))"
proof -
  have found: "Find marshal_str [\<lparr>FamilyOffset = 0, TagOffset = 0\<rparr>, \<lparr>FamilyOffset = 0, TagOffset = 2\<rparr>]
        [Some \<lparr>Tags = [Some ''svcA'', Some '''', Some ''i-1'']\<rparr>]
     = Returns (Some [[115, 118, 99, 65], [105, 45, 49]], None)"
    by (simp add: Find_def GetTagByOffset_def marshal_str_def)
  have shards: "1 \<le> unat (4 :: 32 word)" by simp
  from Locate_shard_id [OF found shards, of fnv1a] found shards
  show ?thesis by auto
qed

section \<open>Properties of NewEntityLocator\<close>

lemma NewEntityLocator_loop_eq:
  "NewEntityLocator_loop findTagByName families names locator =
     locator @ map (\<lambda>name. \<lparr>FamilyOffset = fst (findTagByName families name),
                             TagOffset = fst (snd (findTagByName families name))\<rparr>)
                   (filter (\<lambda>name. snd (snd (findTagByName families name)) \<noteq> None) names)"
proof (induction names arbitrary: locator)
  case Nil
  show ?case by simp
next
  case (Cons name rest)
  obtain fIndex tIndex tag where f: "findTagByName families name = (fIndex, tIndex, tag)"
    by (cases "findTagByName families name")
  show ?case
  proof (cases tag)
    case None
    with f show ?thesis by (simp add: Cons.IH)
  next
    case (Some spec)
    with f show ?thesis by (simp add: Cons.IH)
  qed
qed

text \<open>
  Claim C5. \<^verbatim>\<open>NewEntityLocator\<close> returns a locator and nothing else (it has no error
  result and no step that can panic, also for a nil entity declaration). The locator
  is the list of the declared tag names for which \<^verbatim>\<open>FindTagByName\<close> returns a tag
  specification, in the declared order, each replaced by the pair of indexes
  \<^verbatim>\<open>FindTagByName\<close> returns for it; a name with a nil specification leaves no entry.
\<close>

theorem NewEntityLocator_resolved_in_order:
  "NewEntityLocator findTagByName families entity =
     map (\<lambda>name. \<lparr>FamilyOffset = fst (findTagByName families name),
                   TagOffset = fst (snd (findTagByName families name))\<rparr>)
         (filter (\<lambda>name. snd (snd (findTagByName families name)) \<noteq> None) (GetTagNames entity))"
proof -
  have "NewEntityLocator_loop findTagByName families (GetTagNames entity) [] =
          [] @ map (\<lambda>name. \<lparr>FamilyOffset = fst (findTagByName families name),
                                TagOffset = fst (snd (findTagByName families name))\<rparr>)
                   (filter (\<lambda>name. snd (snd (findTagByName families name)) \<noteq> None)
                      (GetTagNames entity))"
    by (rule NewEntityLocator_loop_eq)
  then show ?thesis
    by (simp add: NewEntityLocator_def)
qed

theorem NewEntityLocator_resolved_in_order_witness:
  "NewEntityLocator
     (\<lambda>families name. if name = ''service'' then (0, 0, Some ())
                       else if name = ''instance'' then (0, 2, Some ())
                       else (0, 0, None))
     () (Some \<lparr>TagNames = [''service'', ''unknown'', ''instance'']\<rparr>)
   = [\<lparr>FamilyOffset = 0, TagOffset = 0\<rparr>, \<lparr>FamilyOffset = 0, TagOffset = 2\<rparr>]"
  using NewEntityLocator_resolved_in_order
    [of "\<lambda>families name. if name = ''service'' then (0, 0, Some ())
                       else if name = ''instance'' then (0, 2, Some ())
                       else (0, 0, None)" "()" "Some \<lparr>TagNames = [''service'', ''unknown'', ''instance'']\<rparr>"]
  by simp

section \<open>Properties of stream.Close\<close>





section \<open>Properties of the liaison's Write handler\<close>

lemma Write_loop_same_names:
  assumes "map_option FieldNamesCompositeSeriesId (seriesEventData g1)
         = map_option FieldNamesCompositeSeriesId (seriesEventData g2)"
  shows "Write_loop buildTraceSchema send g1 stream sent
       = Write_loop buildTraceSchema send g2 stream sent"
  using assms
proof (induction buildTraceSchema send g1 stream sent rule: Write_loop.induct)
  case (1 buildTraceSchema send g sent)
  show ?case by simp
next
  case (2 buildTraceSchema send g err stream sent)
  show ?case by simp
next
  case (3 buildTraceSchema send g writeEntity stream sent)
  obtain schema ruleError where b: "buildTraceSchema (MetaData writeEntity) = (schema, ruleError)"
    by (cases "buildTraceSchema (MetaData writeEntity)")
  show ?case
  proof (cases ruleError)
    case (Some er)
    with b show ?thesis by simp
  next
    case None
    note noRule = None
    show ?thesis
    proof (cases "seriesEventData g")
      case None
      with "3.prems" have "seriesEventData g2 = None" by simp
      with None b noRule show ?thesis by simp
    next
      case (Some event)
      note ev = Some
      with "3.prems" obtain event2 where e2: "seriesEventData g2 = Some event2"
        and names: "FieldNamesCompositeSeriesId event2 = FieldNamesCompositeSeriesId event"
        by (cases "seriesEventData g2") auto
      show ?thesis
      proof (cases "Write_fields schema writeEntity (FieldNamesCompositeSeriesId event)")
        case False
        with b noRule ev e2 names show ?thesis by simp
      next
        case True
        note fields = True
        show ?thesis
        proof (cases "send sent")
          case (Some errSend)
          with b noRule ev e2 names fields show ?thesis by simp
        next
          case None
          have "Write_loop buildTraceSchema send g stream (Suc sent)
              = Write_loop buildTraceSchema send g2 stream (Suc sent)"
          proof -
            have nn: "\<not> \<not> Write_fields schema writeEntity (FieldNamesCompositeSeriesId event)"
              using fields by simp
            show ?thesis
              by (rule "3.IH" [OF b [symmetric] noRule ev nn None "3.prems"])
          qed
          with b noRule ev e2 names fields None show ?thesis by simp
        qed
      qed
    qed
  qed
qed

text \<open>
  Claim C8, as the code has it. The liaison keeps the package variable
  \<^verbatim>\<open>seriesEventData\<close>: \<^verbatim>\<open>seriesInfo.Rev\<close> overwrites it with every series event it
  receives as bytes (and leaves it alone otherwise), and \<^verbatim>\<open>Write\<close> reads it for every
  request. With the variable unchanged during a call, the responses and the result of
  \<^verbatim>\<open>Write\<close> on a request stream are the same in two runs when the variable is nil in
  both, or holds events with the same list of series-id field names in both.
\<close>

theorem Write_depends_on_seriesEventData:
  "seriesEventData (seriesInfo_Rev getRootAsSeriesEvent g (Bytes data)) = Some (getRootAsSeriesEvent data)
   \<and> seriesEventData (seriesInfo_Rev getRootAsSeriesEvent g Other) = seriesEventData g
   \<and> (map_option FieldNamesCompositeSeriesId (seriesEventData g1)
        = map_option FieldNamesCompositeSeriesId (seriesEventData g2)
      \<longrightarrow> Write buildTraceSchema send g1 stream = Write buildTraceSchema send g2 stream)"
proof (intro conjI impI)
  show "seriesEventData (seriesInfo_Rev getRootAsSeriesEvent g (Bytes data)) = Some (getRootAsSeriesEvent data)"
    by (simp add: seriesInfo_Rev_def)
  show "seriesEventData (seriesInfo_Rev getRootAsSeriesEvent g Other) = seriesEventData g"
    by (simp add: seriesInfo_Rev_def)
next
  assume "map_option FieldNamesCompositeSeriesId (seriesEventData g1)
        = map_option FieldNamesCompositeSeriesId (seriesEventData g2)"
  then show "Write buildTraceSchema send g1 stream = Write buildTraceSchema send g2 stream"
    unfolding Write_def by (rule Write_loop_same_names)
qed

theorem Write_depends_on_seriesEventData_witness:
  "map_option FieldNamesCompositeSeriesId
     (seriesEventData (seriesInfo_Rev (\<lambda>ev. ev) initial_globals
        (Bytes \<lparr>Action = ''create'', SeriesName = ''sw'', SeriesGroup = ''default'',
                FieldNamesCompositeSeriesId = [''service_id'']\<rparr>)))
   = map_option FieldNamesCompositeSeriesId
     (seriesEventData (seriesInfo_Rev (\<lambda>ev. ev) initial_globals
        (Bytes \<lparr>Action = ''update'', SeriesName = ''other'', SeriesGroup = ''default'',
                FieldNamesCompositeSeriesId = [''service_id'']\<rparr>)))
   \<and> Write (\<lambda>md. (\<lambda>name. (name = ''service_id'', 0), None)) (\<lambda>k. None)
       (seriesInfo_Rev (\<lambda>ev. ev) initial_globals
          (Bytes \<lparr>Action = ''create'', SeriesName = ''sw'', SeriesGroup = ''default'',
                  FieldNamesCompositeSeriesId = [''service_id'']\<rparr>))
       [Msg \<lparr>MetaData = (), EntityFields = (\<lambda>sub. sub = 0)\<rparr>]
     = Write (\<lambda>md. (\<lambda>name. (name = ''service_id'', 0), None)) (\<lambda>k. None)
       (seriesInfo_Rev (\<lambda>ev. ev) initial_globals
          (Bytes \<lparr>Action = ''update'', SeriesName = ''other'', SeriesGroup = ''default'',
                  FieldNamesCompositeSeriesId = [''service_id'']\<rparr>))
       [Msg \<lparr>MetaData = (), EntityFields = (\<lambda>sub. sub = 0)\<rparr>]"
proof -
  let ?g1 = "seriesInfo_Rev (\<lambda>ev. ev) initial_globals
        (Bytes \<lparr>Action = ''create'', SeriesName = ''sw'', SeriesGroup = ''default'',
                FieldNamesCompositeSeriesId = [''service_id'']\<rparr>)"
  let ?g2 = "seriesInfo_Rev (\<lambda>ev. ev) initial_globals
        (Bytes \<lparr>Action = ''update'', SeriesName = ''other'', SeriesGroup = ''default'',
                FieldNamesCompositeSeriesId = [''service_id'']\<rparr>)"
  have same: "map_option FieldNamesCompositeSeriesId (seriesEventData ?g1)
            = map_option FieldNamesCompositeSeriesId (seriesEventData ?g2)"
    by (simp add: seriesInfo_Rev_def)
  from Write_depends_on_seriesEventData
    [of "\<lambda>ev. ev" initial_globals
        "\<lparr>Action = ''create'', SeriesName = ''sw'', SeriesGroup = ''default'',
          FieldNamesCompositeSeriesId = [''service_id'']\<rparr>"
        ?g1 ?g2 "\<lambda>md. (\<lambda>name. (name = ''service_id'', 0), None)" "\<lambda>k. None"
        "[Msg \<lparr>MetaData = (), EntityFields = (\<lambda>sub. sub = 0)\<rparr>]"]
    same
  show ?thesis by blast
qed

text \<open>
  Claim C8 as stated fails: the same request stream, one request whose entity has no
  field at the subscript of \<open>service_id\<close>, is answered with one response after a
  series event without field names was delivered, ends without any response after a
  series event naming \<open>service_id\<close> was delivered, and panics when no series event
  was delivered at all.
\<close>

theorem Write_differs_with_series_events:
  "Write (\<lambda>md. (\<lambda>name. (name = ''service_id'', 0), None)) (\<lambda>k. None)
     (seriesInfo_Rev (\<lambda>ev. ev) initial_globals
        (Bytes \<lparr>Action = ''create'', SeriesName = ''sw'', SeriesGroup = ''default'',
                FieldNamesCompositeSeriesId = []\<rparr>))
     [Msg \<lparr>MetaData = (), EntityFields = (\<lambda>sub. False)\<rparr>]
   = (1, Returns None)
   \<and> Write (\<lambda>md. (\<lambda>name. (name = ''service_id'', 0), None)) (\<lambda>k. None)
     (seriesInfo_Rev (\<lambda>ev. ev) initial_globals
        (Bytes \<lparr>Action = ''create'', SeriesName = ''sw'', SeriesGroup = ''default'',
                FieldNamesCompositeSeriesId = [''service_id'']\<rparr>))
     [Msg \<lparr>MetaData = (), EntityFields = (\<lambda>sub. False)\<rparr>]
   = (0, Returns None)
   \<and> Write (\<lambda>md. (\<lambda>name. (name = ''service_id'', 0), None)) (\<lambda>k. None)
     initial_globals
     [Msg \<lparr>MetaData = (), EntityFields = (\<lambda>sub. False)\<rparr>]
   = (0, Panics)"
  by (simp add: Write_def seriesInfo_Rev_def initial_globals_def)

end
